theory Spec2Isabelle
  imports Main "HOL-Library.Word" "HOL-Library.Sublist" "HOL-Library.Multiset"
begin

section \<open>Strings of the host language\<close>

text \<open>
  The program is a React component written in JavaScript (\<^verbatim>\<open>src/src/App.js\<close>).
  A JavaScript string is a finite sequence of 16-bit code units, and every string
  operation the component uses (\<^verbatim>\<open>trim\<close>, \<^verbatim>\<open>includes\<close>, \<^verbatim>\<open>endsWith\<close>, \<^verbatim>\<open>+\<close>) works on
  code units. An empty string is the only falsy string.
\<close>

type_synonym jsstring = "16 word list"

text \<open>ASCII literals of the source, written as Isabelle strings.\<close>

definition js :: "string \<Rightarrow> jsstring" where
  "js s = map (\<lambda>c. of_nat (of_char c)) s"

text \<open>
  \<^verbatim>\<open>String.prototype.trim\<close> removes leading and trailing white space and line
  terminators: TAB, LF, VT, FF, CR, SPACE, NBSP, the Unicode space separators
  (U+1680, U+2000..U+200A, U+202F, U+205F, U+3000), LS, PS and BOM.
\<close>

definition is_white :: "16 word \<Rightarrow> bool" where
  "is_white c = (c \<in> set [0x0009, 0x000A, 0x000B, 0x000C, 0x000D, 0x0020, 0x00A0,
      0x1680, 0x2000, 0x2001, 0x2002, 0x2003, 0x2004, 0x2005, 0x2006, 0x2007,
      0x2008, 0x2009, 0x200A, 0x2028, 0x2029, 0x202F, 0x205F, 0x3000, 0xFEFF])"

definition trim :: "jsstring \<Rightarrow> jsstring" where
  "trim s = rev (dropWhile is_white (rev (dropWhile is_white s)))"

text \<open>
  \<^verbatim>\<open>t.includes(s)\<close>: does \<open>s\<close> occur in \<open>t\<close> as a contiguous run of code units,
  compared exactly (no case folding, no normalisation)? The search tries every start
  position from the left.
\<close>

fun js_includes :: "jsstring \<Rightarrow> jsstring \<Rightarrow> bool" where
  "js_includes [] s = (s = [])"
| "js_includes (c # t) s = (prefix s (c # t) \<or> js_includes t s)"

text \<open>
  \<^verbatim>\<open>s.endsWith(suf)\<close>: the search string is compared with the last
  \<open>length suf\<close> code units; a string shorter than the search string never matches.
\<close>

definition endsWith :: "jsstring \<Rightarrow> jsstring \<Rightarrow> bool" where
  "endsWith s suf =
     (length suf \<le> length s \<and> drop (length s - length suf) s = suf)"

text \<open>\<^verbatim>\<open>a || b\<close> on strings: the left operand unless it is falsy (empty).\<close>

definition or_else :: "jsstring \<Rightarrow> jsstring \<Rightarrow> jsstring" where
  "or_else a b = (if a = [] then b else a)"

section \<open>Quotes and the component state\<close>

text \<open>
  The label used for a quote without an author, the Arabic word the source writes as a
  literal in every place (five code units, U+0645 U+062C U+0647 U+0648 U+0644).
\<close>

definition unknown_author :: jsstring where
  "unknown_author = [0x0645, 0x062C, 0x0647, 0x0648, 0x0644]"

text \<open>A quote is the object \<^verbatim>\<open>{ text, author }\<close>.\<close>

record quote =
  qtext :: jsstring
  author :: jsstring

text \<open>
  The messages shown to the user. The source writes each as an Arabic literal; the
  constructors name them:
  \<^item> \<open>InvalidJson\<close>: set as \<^verbatim>\<open>importError\<close> when the JSON branch throws;
  \<^item> \<open>UnsupportedType\<close>: set as \<^verbatim>\<open>importError\<close> for a file that is neither CSV nor JSON;
  \<^item> \<open>NothingToImport\<close>: alert of \<^verbatim>\<open>confirmImport\<close> on an empty preview;
  \<^item> \<open>SaveFailed\<close>: alert when the remote insert answers with an error;
  \<^item> \<open>Imported n\<close>: alert after a remote insert of \<open>n\<close> records;
  \<^item> \<open>ConnectionFailed\<close>: alert of the \<^verbatim>\<open>catch\<close> block of \<^verbatim>\<open>confirmImport\<close>;
  \<^item> \<open>AddedLocally n\<close>: alert after \<open>n\<close> records were added to local state;
  \<^item> \<open>AddFailed\<close>: alert when the remote insert of a manual quote answers with an error.
\<close>

datatype message =
    InvalidJson
  | UnsupportedType
  | NothingToImport
  | SaveFailed
  | Imported nat
  | ConnectionFailed
  | AddedLocally nat
  | AddFailed

text \<open>
  The state hooks of \<^verbatim>\<open>App\<close> that the handlers below read or write.
  \<open>importError\<close> is \<open>None\<close> for the empty string. \<open>alerts\<close> is the sequence of
  \<^verbatim>\<open>alert(...)\<close> calls made so far, oldest first.
\<close>

record app =
  quotes :: "quote list"
  query :: jsstring
  previewList :: "quote list"
  importError :: "message option"
  loading :: bool
  alerts :: "message list"

definition alert :: "message \<Rightarrow> app \<Rightarrow> app" where
  "alert m st = st\<lparr>alerts := alerts st @ [m]\<rparr>"

section \<open>Search\<close>

text \<open>
  \<^verbatim>\<open>
  const filtered = quotes.filter((q) => {
    const t = q.text + " " + (q.author || "");
    return t.includes(query.trim());
  });
  \<close>
\<close>

definition haystack :: "quote \<Rightarrow> jsstring" where
  "haystack q = qtext q @ js '' '' @ or_else (author q) []"

definition matches :: "jsstring \<Rightarrow> quote \<Rightarrow> bool" where
  "matches qry q = js_includes (haystack q) (trim qry)"

definition filtered :: "app \<Rightarrow> quote list" where
  "filtered st = filter (matches (query st)) (quotes st)"

section \<open>Values read from an import file\<close>

text \<open>
  What \<^verbatim>\<open>JSON.parse\<close> returns. A number is kept as the decimal string that
  \<^verbatim>\<open>Number.prototype.toString\<close> gives for it (\<open>0\<close> for both zeros): the handler
  observes a number only through \<^verbatim>\<open>||\<close> and \<^verbatim>\<open>.toString()\<close>. An object is the list
  of its own properties.
\<close>

datatype json =
    JNull
  | JBool bool
  | JNum jsstring
  | JStr jsstring
  | JArr "json list"
  | JObj "(jsstring \<times> json) list"

text \<open>What the \<^verbatim>\<open>try\<close> block of the JSON branch can catch.\<close>

datatype thrown = SyntaxError | NotArray | TypeError

text \<open>
  Reading a data property (\<^verbatim>\<open>i.text\<close>, \<^verbatim>\<open>i.author\<close>): \<^verbatim>\<open>null\<close> has no properties
  and the read throws; an object yields its own property or \<^verbatim>\<open>undefined\<close>
  (\<open>None\<close>); arrays, strings, numbers and booleans have no property of these names.
\<close>

fun get_field :: "jsstring \<Rightarrow> json \<Rightarrow> thrown + json option" where
  "get_field k JNull = Inl TypeError"
| "get_field k (JObj kvs) = Inr (map_of kvs k)"
| "get_field k (JBool b) = Inr None"
| "get_field k (JNum r) = Inr None"
| "get_field k (JStr s) = Inr None"
| "get_field k (JArr xs) = Inr None"

text \<open>Truthiness, as \<^verbatim>\<open>||\<close> tests it on a value that may be \<^verbatim>\<open>undefined\<close>.\<close>

fun truthy :: "json option \<Rightarrow> bool" where
  "truthy None = False"
| "truthy (Some JNull) = False"
| "truthy (Some (JBool b)) = b"
| "truthy (Some (JNum r)) = (r \<noteq> js ''0'')"
| "truthy (Some (JStr s)) = (s \<noteq> [])"
| "truthy (Some (JArr xs)) = True"
| "truthy (Some (JObj kvs)) = True"

text \<open>\<^verbatim>\<open>v || d\<close> with a string default \<open>d\<close>.\<close>

fun or_default :: "json option \<Rightarrow> jsstring \<Rightarrow> json" where
  "or_default None d = JStr d"
| "or_default (Some v) d = (if truthy (Some v) then v else JStr d)"

text \<open>The first exception of a sequence of computations, or all their results.\<close>

fun sequence :: "('e + 'a) list \<Rightarrow> 'e + 'a list" where
  "sequence [] = Inr []"
| "sequence (x # xs) =
     (case x of
        Inl e \<Rightarrow> Inl e
      | Inr v \<Rightarrow> (case sequence xs of Inl e \<Rightarrow> Inl e | Inr vs \<Rightarrow> Inr (v # vs)))"

text \<open>\<^verbatim>\<open>Array.prototype.join\<close> with the default separator.\<close>

fun join_strings :: "jsstring list \<Rightarrow> jsstring" where
  "join_strings [] = []"
| "join_strings [s] = s"
| "join_strings (s # t # ss) = s @ js '','' @ join_strings (t # ss)"

text \<open>
  The method call \<^verbatim>\<open>v.toString()\<close>. A string is itself, a boolean and a number are
  their literals. An array joins the strings of its elements, \<^verbatim>\<open>null\<close> elements giving
  the empty string. An object parsed from JSON inherits \<^verbatim>\<open>Object.prototype.toString\<close>
  unless it has an own property \<^verbatim>\<open>toString\<close>, which is then no function and
  calling it throws. \<^verbatim>\<open>null\<close> has no methods.
\<close>

fun toString :: "json \<Rightarrow> thrown + jsstring" where
  "toString JNull = Inl TypeError"
| "toString (JBool b) = Inr (if b then js ''true'' else js ''false'')"
| "toString (JNum r) = Inr r"
| "toString (JStr s) = Inr s"
| "toString (JArr xs) =
     (case sequence (map (\<lambda>x. if x = JNull then Inr [] else toString x) xs) of
        Inl e \<Rightarrow> Inl e
      | Inr ss \<Rightarrow> Inr (join_strings ss))"
| "toString (JObj kvs) =
     (if map_of kvs (js ''toString'') = None then Inr (js ''[object Object]'')
      else Inl TypeError)"

text \<open>
  The library functions the handler calls on its input. They are not part of the
  repository and are taken as given:
  \<^item> \<open>toLowerCase\<close>: \<^verbatim>\<open>String.prototype.toLowerCase\<close>;
  \<^item> \<open>JSON_parse\<close>: \<^verbatim>\<open>JSON.parse\<close>, \<open>None\<close> when it throws a syntax error;
  \<^item> \<open>Papa_parse\<close>: the \<^verbatim>\<open>data\<close> of \<^verbatim>\<open>Papa.parse(text, { header: false })\<close>, an
    array of rows, each an array of strings.
\<close>

record host =
  toLowerCase :: "jsstring \<Rightarrow> jsstring"
  JSON_parse :: "jsstring \<Rightarrow> json option"
  Papa_parse :: "jsstring \<Rightarrow> jsstring list list"

section \<open>Import: reading a file into the preview\<close>

text \<open>
  One element of the parsed array becomes a candidate:
  \<^verbatim>\<open>
  ({ text: (i.text || "").toString().trim(),
     author: (i.author || UNKNOWN).toString().trim() })
  \<close>
  Anything thrown on the way leaves the \<^verbatim>\<open>map\<close>.
\<close>

definition coerce :: "json \<Rightarrow> thrown + quote" where
  "coerce i =
     (case get_field (js ''text'') i of
        Inl e \<Rightarrow> Inl e
      | Inr t \<Rightarrow>
     (case toString (or_default t []) of
        Inl e \<Rightarrow> Inl e
      | Inr ts \<Rightarrow>
     (case get_field (js ''author'') i of
        Inl e \<Rightarrow> Inl e
      | Inr a \<Rightarrow>
     (case toString (or_default a unknown_author) of
        Inl e \<Rightarrow> Inl e
      | Inr as \<Rightarrow> Inr \<lparr>qtext = trim ts, author = trim as\<rparr>))))"

text \<open>
  The body of the \<^verbatim>\<open>try\<close> block: parse, insist on an array, coerce every element,
  keep the candidates whose text is truthy.
\<close>

definition parse_json :: "host \<Rightarrow> jsstring \<Rightarrow> thrown + quote list" where
  "parse_json h content =
     (case JSON_parse h content of
        None \<Rightarrow> Inl SyntaxError
      | Some (JArr data) \<Rightarrow>
          (case sequence (map coerce data) of
             Inl e \<Rightarrow> Inl e
           | Inr parsed \<Rightarrow> Inr (filter (\<lambda>p. qtext p \<noteq> []) parsed))
      | Some _ \<Rightarrow> Inl NotArray)"

text \<open>
  A CSV row becomes a candidate:
  \<^verbatim>\<open>
  const t = row[0] || "";
  const a = row[1] || UNKNOWN;
  return { text: t.toString().trim(), author: a.toString().trim() };
  \<close>
  An index past the end of the row reads \<^verbatim>\<open>undefined\<close>.
\<close>

definition cell :: "jsstring list \<Rightarrow> nat \<Rightarrow> jsstring option" where
  "cell row k = (if k < length row then Some (row ! k) else None)"

definition cell_or :: "jsstring list \<Rightarrow> nat \<Rightarrow> jsstring \<Rightarrow> jsstring" where
  "cell_or row k d = (case cell row k of None \<Rightarrow> d | Some s \<Rightarrow> or_else s d)"

definition csv_row :: "jsstring list \<Rightarrow> quote" where
  "csv_row row =
     \<lparr>qtext = trim (cell_or row 0 []), author = trim (cell_or row 1 unknown_author)\<rparr>"

definition parse_csv :: "host \<Rightarrow> jsstring \<Rightarrow> quote list" where
  "parse_csv h content = filter (\<lambda>r. qtext r \<noteq> []) (map csv_row (Papa_parse h content))"

text \<open>
  \<^verbatim>\<open>reader.onload\<close>: \<open>name\<close> is the lower-cased file name, \<open>content\<close> the decoded
  text of the file.
\<close>

definition onload :: "host \<Rightarrow> jsstring \<Rightarrow> jsstring \<Rightarrow> app \<Rightarrow> app" where
  "onload h name content st =
     (if endsWith name (js ''.json'') then
        (case parse_json h content of
           Inr list \<Rightarrow> st\<lparr>previewList := list\<rparr>
         | Inl e \<Rightarrow> st\<lparr>importError := Some InvalidJson, previewList := []\<rparr>)
      else if endsWith name (js ''.csv'') then
        st\<lparr>previewList := parse_csv h content\<rparr>
      else st\<lparr>importError := Some UnsupportedType, previewList := []\<rparr>)"

text \<open>
  \<^verbatim>\<open>handleFileChange\<close>: the error is cleared first; without a file nothing else
  happens; otherwise the file is read as UTF-8 text and \<open>onload\<close> runs on it. The
  argument is the chosen file as (name, decoded text).
\<close>

definition handleFileChange :: "host \<Rightarrow> (jsstring \<times> jsstring) option \<Rightarrow> app \<Rightarrow> app" where
  "handleFileChange h file st =
     (case file of
        None \<Rightarrow> st\<lparr>importError := None\<rparr>
      | Some (fname, content) \<Rightarrow>
          onload h (toLowerCase h fname) content (st\<lparr>importError := None\<rparr>))"

text \<open>The button that cancels the preview.\<close>

definition cancelPreview :: "app \<Rightarrow> app" where
  "cancelPreview st = st\<lparr>previewList := [], importError := None\<rparr>"

section \<open>The remote store\<close>

text \<open>
  The optional Supabase client. An awaited call either throws (\<open>Rejected\<close>) or yields
  its reply. \<open>insert_quotes\<close> answers an insert with whether the reply's
  \<^verbatim>\<open>error\<close> is set; \<open>select_quotes\<close> answers the select of at most \<open>n\<close> rows, newest
  first, with the reply's \<^verbatim>\<open>data\<close> (\<open>None\<close> when it is \<^verbatim>\<open>null\<close>). A row has a text
  and an author that may be \<^verbatim>\<open>null\<close>.
\<close>

datatype 'a awaited = Rejected | Fulfilled 'a

record remote_row =
  row_text :: jsstring
  row_author :: "jsstring option"

record client =
  insert_quotes :: "quote list \<Rightarrow> bool awaited"
  select_quotes :: "nat \<Rightarrow> remote_row list option awaited"

text \<open>\<^verbatim>\<open>data.map((d) => ({ text: d.text, author: d.author || UNKNOWN }))\<close>\<close>

definition of_row :: "remote_row \<Rightarrow> quote" where
  "of_row d =
     \<lparr>qtext = row_text d,
      author = (case row_author d of None \<Rightarrow> unknown_author | Some a \<Rightarrow> or_else a unknown_author)\<rparr>"

section \<open>Commit of the preview\<close>

text \<open>
  \<^verbatim>\<open>confirmImport\<close>. With an empty preview it alerts and returns. Otherwise it
  sets \<^verbatim>\<open>loading\<close>, writes the batch (to the remote store when a client is
  configured, else to local state), and clears \<^verbatim>\<open>loading\<close>. In the remote branch
  an error reply alerts and changes nothing; a success alerts, re-reads the collection
  and clears the preview; anything thrown inside the \<^verbatim>\<open>try\<close> alerts from the
  \<^verbatim>\<open>catch\<close> block.
\<close>

definition payload_of :: "quote list \<Rightarrow> quote list" where
  "payload_of batch = map (\<lambda>p. \<lparr>qtext = qtext p, author = or_else (author p) unknown_author\<rparr>) batch"

definition remote_commit :: "client \<Rightarrow> app \<Rightarrow> app" where
  "remote_commit c st =
     (let payload = payload_of (previewList st) in
      case insert_quotes c payload of
        Rejected \<Rightarrow> alert ConnectionFailed st
      | Fulfilled failed \<Rightarrow>
          if failed then alert SaveFailed st
          else
            (let st1 = alert (Imported (length payload)) st in
             case select_quotes c 500 of
               Rejected \<Rightarrow> alert ConnectionFailed st1
             | Fulfilled None \<Rightarrow> alert ConnectionFailed st1
             | Fulfilled (Some data) \<Rightarrow> st1\<lparr>quotes := map of_row data, previewList := []\<rparr>))"

definition local_commit :: "app \<Rightarrow> app" where
  "local_commit st =
     (alert (AddedLocally (length (previewList st)))
        (st\<lparr>quotes := previewList st @ quotes st\<rparr>))\<lparr>previewList := []\<rparr>"

definition confirmImport :: "client option \<Rightarrow> app \<Rightarrow> app" where
  "confirmImport supabase st =
     (if previewList st = [] then alert NothingToImport st
      else
        (let st1 = st\<lparr>loading := True\<rparr>;
             st2 = (case supabase of Some c \<Rightarrow> remote_commit c st1 | None \<Rightarrow> local_commit st1)
         in st2\<lparr>loading := False\<rparr>))"

section \<open>Manual add\<close>

text \<open>
  \<^verbatim>\<open>
  function addManual(text, author = UNKNOWN) {
    if (!text?.trim()) return;
    const q = { text: text.trim(), author: (author || UNKNOWN).trim() };
    ...
  \<close>
  An argument is \<open>None\<close> when it is \<^verbatim>\<open>undefined\<close> or \<^verbatim>\<open>null\<close>. With a client the
  quote is prepended once the insert has answered without an error; an error reply
  alerts; a rejected insert is not handled.
\<close>

definition manual_quote :: "jsstring \<Rightarrow> jsstring option \<Rightarrow> quote" where
  "manual_quote t author_arg =
     \<lparr>qtext = trim t,
      author = trim (or_else (case author_arg of None \<Rightarrow> unknown_author | Some a \<Rightarrow> a)
                       unknown_author)\<rparr>"

definition addManual :: "client option \<Rightarrow> jsstring option \<Rightarrow> jsstring option \<Rightarrow> app \<Rightarrow> app" where
  "addManual supabase text_arg author_arg st =
     (case text_arg of
        None \<Rightarrow> st
      | Some t \<Rightarrow>
          if trim t = [] then st
          else
            (let q = manual_quote t author_arg in
             case supabase of
               Some c \<Rightarrow>
                 (case insert_quotes c [q] of
                    Rejected \<Rightarrow> st
                  | Fulfilled failed \<Rightarrow>
                      if failed then alert AddFailed st else st\<lparr>quotes := q # quotes st\<rparr>)
             | None \<Rightarrow> st\<lparr>quotes := q # quotes st\<rparr>))"

section \<open>The vocabulary of the specification\<close>

text \<open>
  The specification describes the preview as a workflow with three states. In the
  component they are read off the state: \<open>Committing\<close> while \<^verbatim>\<open>loading\<close> is set,
  otherwise \<open>Empty\<close> or \<open>Previewing\<close> as the preview list is empty or not.
\<close>

datatype phase = Empty | Previewing | Committing

definition workflow_phase :: "app \<Rightarrow> phase" where
  "workflow_phase st =
     (if loading st then Committing
      else if previewList st = [] then Empty else Previewing)"

text \<open>
  The import format of the specification: an array of objects with optional
  \<^verbatim>\<open>text\<close> and \<^verbatim>\<open>author\<close> string fields. \<open>string_field\<close> is the value of such a
  field (\<open>None\<close> when it is missing).
\<close>

fun optional_string :: "json option \<Rightarrow> bool" where
  "optional_string None = True"
| "optional_string (Some (JStr s)) = True"
| "optional_string (Some v) = False"

fun import_element :: "json \<Rightarrow> bool" where
  "import_element (JObj kvs) =
     (optional_string (map_of kvs (js ''text'')) \<and> optional_string (map_of kvs (js ''author'')))"
| "import_element v = False"

fun string_field :: "jsstring \<Rightarrow> json \<Rightarrow> jsstring option" where
  "string_field k (JObj kvs) = (case map_of kvs k of Some (JStr s) \<Rightarrow> Some s | _ \<Rightarrow> None)"
| "string_field k v = None"

text \<open>
  The candidate the specification promises for an element: the text trimmed, the
  author trimmed, and the label for an unknown author when the author field is missing
  or empty.
\<close>

definition spec_text :: "json \<Rightarrow> jsstring" where
  "spec_text i = (case string_field (js ''text'') i of None \<Rightarrow> [] | Some s \<Rightarrow> trim s)"

definition spec_author :: "json \<Rightarrow> jsstring" where
  "spec_author i =
     (case string_field (js ''author'') i of
        None \<Rightarrow> unknown_author
      | Some s \<Rightarrow> if s = [] then unknown_author else trim s)"

definition spec_candidate :: "json \<Rightarrow> quote" where
  "spec_candidate i = \<lparr>qtext = spec_text i, author = spec_author i\<rparr>"

text \<open>
  The same candidate for fields of any type: a field that is missing or falsy
  (\<^verbatim>\<open>null\<close>, \<^verbatim>\<open>false\<close>, \<^verbatim>\<open>0\<close>, the empty string) gives the default, any other value
  gives its string form. \<open>string_form\<close> is the value converted to a string, for a
  value that has one.
\<close>

fun falsy :: "json \<Rightarrow> bool" where
  "falsy JNull = True"
| "falsy (JBool b) = (\<not> b)"
| "falsy (JNum r) = (r = js ''0'')"
| "falsy (JStr s) = (s = [])"
| "falsy (JArr xs) = False"
| "falsy (JObj kvs) = False"

definition string_form :: "json \<Rightarrow> jsstring" where
  "string_form v = (case toString v of Inr s \<Rightarrow> s | Inl e \<Rightarrow> [])"

fun object_field :: "jsstring \<Rightarrow> json \<Rightarrow> json option" where
  "object_field k (JObj kvs) = map_of kvs k"
| "object_field k v = None"

definition field_string :: "jsstring \<Rightarrow> jsstring \<Rightarrow> json \<Rightarrow> jsstring" where
  "field_string k d i =
     (case object_field k i of
        None \<Rightarrow> d
      | Some v \<Rightarrow> if falsy v then d else string_form v)"

definition candidate :: "json \<Rightarrow> quote" where
  "candidate i =
     \<lparr>qtext = trim (field_string (js ''text'') [] i),
      author = trim (field_string (js ''author'') unknown_author i)\<rparr>"

text \<open>The \<open>k\<close>-th column of a CSV row, empty when the row is shorter.\<close>

definition column :: "jsstring list \<Rightarrow> nat \<Rightarrow> jsstring" where
  "column row k = (if k < length row then row ! k else [])"

definition spec_csv_candidate :: "jsstring list \<Rightarrow> quote" where
  "spec_csv_candidate row =
     \<lparr>qtext = trim (column row 0),
      author = (if column row 1 = [] then unknown_author else trim (column row 1))\<rparr>"

text \<open>
  When the specification says an import is rejected: the lower-cased name has neither
  extension, or it ends in \<^verbatim>\<open>.json\<close> and the content does not parse as a JSON array.
\<close>

definition unsupported :: "jsstring \<Rightarrow> bool" where
  "unsupported name = (\<not> endsWith name (js ''.json'') \<and> \<not> endsWith name (js ''.csv''))"

fun is_json_array :: "json option \<Rightarrow> bool" where
  "is_json_array (Some (JArr data)) = True"
| "is_json_array r = False"

definition spec_rejects :: "host \<Rightarrow> jsstring \<Rightarrow> jsstring \<Rightarrow> bool" where
  "spec_rejects h fname content =
     (unsupported (toLowerCase h fname) \<or>
      (endsWith (toLowerCase h fname) (js ''.json'') \<and> \<not> is_json_array (JSON_parse h content)))"

text \<open>
  What else makes the JSON branch fail: an element that is \<^verbatim>\<open>null\<close>, or a
  \<^verbatim>\<open>text\<close> or \<^verbatim>\<open>author\<close> value that has no string form, namely an object with a
  property \<^verbatim>\<open>toString\<close> of its own, by itself or inside arrays.
\<close>

fun unprintable :: "json \<Rightarrow> bool" where
  "unprintable (JObj kvs) = (map_of kvs (js ''toString'') \<noteq> None)"
| "unprintable (JArr xs) = list_ex unprintable xs"
| "unprintable JNull = False"
| "unprintable (JBool b) = False"
| "unprintable (JNum r) = False"
| "unprintable (JStr s) = False"

fun unprintable_field :: "json option \<Rightarrow> bool" where
  "unprintable_field None = False"
| "unprintable_field (Some v) = unprintable v"

fun rejected_element :: "json \<Rightarrow> bool" where
  "rejected_element JNull = True"
| "rejected_element (JObj kvs) =
     (unprintable_field (map_of kvs (js ''text'')) \<or>
      unprintable_field (map_of kvs (js ''author'')))"
| "rejected_element v = False"

fun rejected_json :: "json option \<Rightarrow> bool" where
  "rejected_json (Some (JArr data)) = list_ex rejected_element data"
| "rejected_json r = True"

definition rejects :: "host \<Rightarrow> jsstring \<Rightarrow> jsstring \<Rightarrow> bool" where
  "rejects h fname content =
     (unsupported (toLowerCase h fname) \<or>
      (endsWith (toLowerCase h fname) (js ''.json'') \<and> rejected_json (JSON_parse h content)))"

section \<open>A host for the examples\<close>

text \<open>
  The examples below run the handlers on concrete files. They use this host, which
  agrees with the library functions on the inputs the examples use:
  \<^item> \<open>ascii_lower\<close> is \<^verbatim>\<open>toLowerCase\<close> on strings of ASCII characters;
  \<^item> \<open>example_JSON_parse\<close> is \<^verbatim>\<open>JSON.parse\<close> on the four documents it lists and
    on text that is no JSON document;
  \<^item> \<open>csv_rows\<close> is \<^verbatim>\<open>Papa.parse\<close> without a header on text whose lines are
    separated by LF and whose fields are separated by commas, with no quote
    character and no other delimiter character in it: the empty text has no rows,
    any other text has one row for each line (an empty last line included).
\<close>

definition ascii_lower :: "jsstring \<Rightarrow> jsstring" where
  "ascii_lower s = map (\<lambda>c. if 0x41 \<le> c \<and> c \<le> 0x5A then c + 0x20 else c) s"

definition scenario_json :: jsstring where
  \<open>scenario_json = js ''[{"text":"a"},{"text":"","author":"x"},{"author":"y"}]''\<close>

definition zero_text_json :: jsstring where
  \<open>zero_text_json = js ''[{"text":0}]''\<close>

definition example_JSON_parse :: "jsstring \<Rightarrow> json option" where
  "example_JSON_parse s =
     (if s = scenario_json then
        Some (JArr [JObj [(js ''text'', JStr (js ''a''))],
                    JObj [(js ''text'', JStr []), (js ''author'', JStr (js ''x''))],
                    JObj [(js ''author'', JStr (js ''y''))]])
      else if s = zero_text_json then Some (JArr [JObj [(js ''text'', JNum (js ''0''))]])
      else if s = js ''[null]'' then Some (JArr [JNull])
      else if s = js ''[]'' then Some (JArr [])
      else None)"

fun split_on :: "16 word \<Rightarrow> jsstring \<Rightarrow> jsstring list" where
  "split_on d [] = [[]]"
| "split_on d (c # cs) =
     (if c = d then [] # split_on d cs
      else (case split_on d cs of [] \<Rightarrow> [[c]] | r # rs \<Rightarrow> (c # r) # rs))"

definition csv_rows :: "jsstring \<Rightarrow> jsstring list list" where
  "csv_rows s = (if s = [] then [] else map (split_on 0x2C) (split_on 0x0A s))"

definition example_host :: host where
  "example_host =
     \<lparr>toLowerCase = ascii_lower, JSON_parse = example_JSON_parse, Papa_parse = csv_rows\<rparr>"

definition scenario_csv :: jsstring where
  "scenario_csv = js ''hello,world'' @ [0x0A] @ js '',skip'' @ [0x0A] @ js ''foo,''"

text \<open>A state to start the examples from: nothing loaded, nothing pending.\<close>

definition initial :: app where
  "initial =
     \<lparr>quotes = [], query = [], previewList = [], importError = None, loading = False,
      alerts = []\<rparr>"

text \<open>A state with two candidates pending and one quote in the collection.\<close>

definition pending :: app where
  "pending =
     initial\<lparr>quotes := [\<lparr>qtext = js ''old'', author = js ''o''\<rparr>],
             previewList := [\<lparr>qtext = js ''p'', author = js ''x''\<rparr>,
                             \<lparr>qtext = js ''q'', author = js ''y''\<rparr>]\<rparr>"

text \<open>A remote store that answers every insert with an error.\<close>

definition error_client :: client where
  "error_client =
     \<lparr>insert_quotes = (\<lambda>payload. Fulfilled True), select_quotes = (\<lambda>n. Fulfilled None)\<rparr>"

text \<open>A remote store that accepts every insert and holds no rows.\<close>

definition accepting_client :: client where
  "accepting_client =
     \<lparr>insert_quotes = (\<lambda>payload. Fulfilled False), select_quotes = (\<lambda>n. Fulfilled (Some []))\<rparr>"

section \<open>Facts about the string operations\<close>

lemma js_includes_sublist: "js_includes t s \<longleftrightarrow> sublist s t"
  by (induction t) (simp_all add: sublist_Cons_right)

lemma or_else_Nil: "or_else a [] = a"
  by (simp add: or_else_def)

lemma trim_Nil: "trim [] = []"
  by (simp add: trim_def)

lemma trim_trim: "trim (trim s) = trim s"
proof -
  define r where "r = dropWhile is_white (rev (dropWhile is_white s))"
  have last_ok: "r = [] \<or> \<not> is_white (last r)"
  proof (cases "r = []")
    case True
    then show ?thesis by simp
  next
    case False
    have ne: "dropWhile is_white s \<noteq> []"
    proof
      assume "dropWhile is_white s = []"
      then have "r = []" by (simp only: r_def rev.simps dropWhile.simps)
      with False show False by simp
    qed
    have "suffix r (rev (dropWhile is_white s))"
      unfolding r_def by (rule suffix_dropWhile)
    with False have "last r = last (rev (dropWhile is_white s))"
      by (auto simp: suffix_def)
    also have "\<dots> = hd (dropWhile is_white s)"
      using ne by (simp add: last_rev)
    finally show ?thesis
      using hd_dropWhile [OF ne] by simp
  qed
  then have "dropWhile is_white (rev r) = rev r"
    by (auto simp: dropWhile_eq_self_iff hd_rev)
  moreover have "dropWhile is_white r = r"
    by (simp add: r_def)
  ultimately show ?thesis
    by (simp add: trim_def r_def [symmetric])
qed

lemma trim_white:
  assumes "\<forall>c\<in>set s. is_white c"
  shows "trim s = []"
proof -
  have "dropWhile is_white s = []"
    using assms by simp
  then show ?thesis
    by (simp only: trim_def rev.simps dropWhile.simps)
qed

lemma trim_eq_Nil_iff: "trim s = [] \<longleftrightarrow> (\<forall>c\<in>set s. is_white c)"
proof
  assume empty: "trim s = []"
  show "\<forall>c\<in>set s. is_white c"
  proof (rule ccontr)
    assume "\<not> (\<forall>c\<in>set s. is_white c)"
    then have ne: "dropWhile is_white s \<noteq> []"
      by simp
    then have "\<not> is_white (hd (dropWhile is_white s))"
      by (rule hd_dropWhile)
    moreover have "hd (dropWhile is_white s) \<in> set (rev (dropWhile is_white s))"
      using ne by simp
    ultimately have "dropWhile is_white (rev (dropWhile is_white s)) \<noteq> []"
      by (simp only: dropWhile_eq_Nil_conv) blast
    with empty show False
      by (simp only: trim_def rev_is_Nil_conv)
  qed
next
  assume "\<forall>c\<in>set s. is_white c"
  then show "trim s = []"
    by (rule trim_white)
qed

lemma trim_padding:
  assumes pre: "\<forall>c\<in>set pre. is_white c" and post: "\<forall>c\<in>set post. is_white c"
  shows "trim (pre @ s @ post) = trim s"
proof -
  have front: "dropWhile is_white (pre @ s @ post) = dropWhile is_white (s @ post)"
    using pre by simp
  show ?thesis
  proof (cases "\<forall>c\<in>set s. is_white c")
    case True
    then have "\<forall>c\<in>set (pre @ s @ post). is_white c"
      using pre post by auto
    then have "trim (pre @ s @ post) = []"
      by (rule trim_white)
    with True show ?thesis
      by (simp add: trim_white)
  next
    case False
    then obtain c where c: "c \<in> set s" "\<not> is_white c"
      by blast
    then have "dropWhile is_white (s @ post) = dropWhile is_white s @ post"
      by (simp add: dropWhile_append1)
    then have "rev (dropWhile is_white (pre @ s @ post)) = rev post @ rev (dropWhile is_white s)"
      using front by simp
    moreover have "dropWhile is_white (rev post @ ys) = dropWhile is_white ys" for ys
      by (rule dropWhile_append2) (use post in simp)
    ultimately show ?thesis
      by (simp add: trim_def)
  qed
qed

lemma trim_unknown_author: "trim unknown_author = unknown_author"
  by (simp add: trim_def unknown_author_def is_white_def)

lemma endsWith_last:
  assumes "endsWith s suf" and "suf \<noteq> []"
  shows "last s = last suf"
proof -
  from assms have "length s - length suf < length s"
    by (cases s) (auto simp: endsWith_def)
  then have "last (drop (length s - length suf) s) = last s"
    by (rule last_drop)
  with assms(1) show ?thesis
    by (simp add: endsWith_def)
qed

lemma csv_not_json:
  assumes "endsWith name (js ''.csv'')"
  shows "\<not> endsWith name (js ''.json'')"
proof
  assume "endsWith name (js ''.json'')"
  then have "last name = last (js ''.json'')"
    by (rule endsWith_last) (simp add: js_def)
  moreover from assms have "last name = last (js ''.csv'')"
    by (rule endsWith_last) (simp add: js_def)
  ultimately show False
    by (simp add: js_def)
qed

section \<open>Facts about search\<close>

lemma matches_sublist:
  "matches qry q \<longleftrightarrow> sublist (trim qry) (qtext q @ js '' '' @ author q)"
  by (simp add: matches_def haystack_def js_includes_sublist or_else_Nil)

lemma matches_trim: "matches (trim qry) = matches qry"
  by (rule ext) (simp add: matches_def trim_trim)

lemma matches_blank: "trim qry = [] \<Longrightarrow> matches qry q"
  by (simp add: matches_sublist)

section \<open>Facts about the JSON branch\<close>

lemma sequence_map_Inr_id: "sequence (map Inr ys) = Inr ys"
  by (induction ys) simp_all

lemma sequence_InrD: "sequence xs = Inr ys \<Longrightarrow> xs = map Inr ys"
proof (induction xs arbitrary: ys)
  case Nil
  then show ?case by simp
next
  case (Cons x xs)
  from Cons.prems obtain v vs where x: "x = Inr v" and vs: "sequence xs = Inr vs" and ys: "ys = v # vs"
    by (auto split: sum.splits)
  from Cons.IH [OF vs] x ys show ?case
    by simp
qed

lemma sequence_Inr_iff: "sequence xs = Inr ys \<longleftrightarrow> xs = map Inr ys"
  using sequence_InrD sequence_map_Inr_id by blast

lemma sequence_isl: "isl (sequence xs) \<longleftrightarrow> list_ex isl xs"
proof (induction xs)
  case Nil
  show ?case by simp
next
  case (Cons x xs)
  show ?case
  proof (cases x)
    case (Inl e)
    then show ?thesis by simp
  next
    case (Inr v)
    with Cons.IH show ?thesis
      by (cases "sequence xs") simp_all
  qed
qed

lemma sequence_map_Inr:
  "(\<And>x. x \<in> set xs \<Longrightarrow> f x = Inr (g x)) \<Longrightarrow> sequence (map f xs) = Inr (map g xs)"
  by (induction xs) simp_all

lemma spec_text_JObj:
  "optional_string (map_of kvs (js ''text'')) \<Longrightarrow>
   toString (or_default (map_of kvs (js ''text'')) []) = Inr ts \<Longrightarrow>
   trim ts = spec_text (JObj kvs)"
  by (cases "map_of kvs (js ''text'')" rule: optional_string.cases)
     (auto simp: spec_text_def trim_Nil split: if_splits)

lemma spec_author_JObj:
  "optional_string (map_of kvs (js ''author'')) \<Longrightarrow>
   toString (or_default (map_of kvs (js ''author'')) unknown_author) = Inr as \<Longrightarrow>
   trim as = spec_author (JObj kvs)"
  by (cases "map_of kvs (js ''author'')" rule: optional_string.cases)
     (auto simp: spec_author_def trim_unknown_author split: if_splits)

lemma toString_optional_string:
  "optional_string t \<Longrightarrow> \<exists>s. toString (or_default t d) = Inr s"
  by (cases t rule: optional_string.cases) simp_all

lemma coerce_import_element:
  assumes "import_element i"
  shows "coerce i = Inr (spec_candidate i)"
proof (cases i)
  case (JObj kvs)
  with assms have t: "optional_string (map_of kvs (js ''text''))"
    and a: "optional_string (map_of kvs (js ''author''))"
    by simp_all
  from toString_optional_string [OF t] obtain ts
    where ts: "toString (or_default (map_of kvs (js ''text'')) []) = Inr ts"
    by blast
  from toString_optional_string [OF a] obtain as
    where as: "toString (or_default (map_of kvs (js ''author'')) unknown_author) = Inr as"
    by blast
  have "coerce (JObj kvs) = Inr \<lparr>qtext = trim ts, author = trim as\<rparr>"
    by (simp add: coerce_def ts as)
  then show ?thesis
    by (simp add: JObj spec_candidate_def spec_text_JObj [OF t ts] spec_author_JObj [OF a as])
qed (use assms in simp_all)

lemma filter_map_candidates:
  "filter (\<lambda>p. qtext p \<noteq> []) (map spec_candidate data) =
     map spec_candidate (filter (\<lambda>i. spec_text i \<noteq> []) data)"
  by (induction data) (simp_all add: spec_candidate_def)

lemma handleFileChange_json:
  assumes "endsWith (toLowerCase h fname) (js ''.json'')"
    and "JSON_parse h content = Some (JArr data)"
    and "list_all import_element data"
  shows "handleFileChange h (Some (fname, content)) st =
           st\<lparr>importError := None,
              previewList := map spec_candidate (filter (\<lambda>i. spec_text i \<noteq> []) data)\<rparr>"
proof -
  have "coerce i = Inr (spec_candidate i)" if "i \<in> set data" for i
    using assms(3) that by (simp add: list_all_iff coerce_import_element)
  then have "sequence (map coerce data) = Inr (map spec_candidate data)"
    by (rule sequence_map_Inr)
  then have "parse_json h content =
      Inr (map spec_candidate (filter (\<lambda>i. spec_text i \<noteq> []) data))"
    using assms(2) by (simp add: parse_json_def filter_map_candidates)
  with assms(1) show ?thesis
    by (simp add: handleFileChange_def onload_def)
qed

lemma coerce_trimmed: "coerce i = Inr p \<Longrightarrow> trim (qtext p) = qtext p"
  by (auto simp: coerce_def trim_trim split: sum.splits)

lemma parse_json_trimmed:
  assumes "parse_json h content = Inr list" and "p \<in> set list"
  shows "qtext p \<noteq> [] \<and> trim (qtext p) = qtext p"
proof -
  from assms(1) obtain data parsed where "sequence (map coerce data) = Inr parsed"
    and list: "list = filter (\<lambda>p. qtext p \<noteq> []) parsed"
    by (auto simp: parse_json_def split: option.splits json.splits sum.splits)
  then have "map coerce data = map Inr parsed"
    by (simp add: sequence_Inr_iff)
  moreover from assms(2) list have p: "p \<in> set parsed" "qtext p \<noteq> []"
    by simp_all
  ultimately obtain i where "coerce i = Inr p"
    by (metis (no_types, lifting) imageE image_eqI list.set_map)
  with p show ?thesis
    by (simp add: coerce_trimmed)
qed

lemma toString_isl: "v \<noteq> JNull \<Longrightarrow> isl (toString v) \<longleftrightarrow> unprintable v"
proof (induction v rule: toString.induct)
  case (5 xs)
  define f where "f = (\<lambda>x. if x = JNull then Inr [] else toString x)"
  have elem: "isl (f x) \<longleftrightarrow> unprintable x" if x: "x \<in> set xs" for x
  proof (cases "x = JNull")
    case True
    then show ?thesis by (simp add: f_def)
  next
    case False
    with "5.IH" [OF x False False] show ?thesis
      by (simp add: f_def)
  qed
  have "isl (toString (JArr xs)) \<longleftrightarrow> isl (sequence (map f xs))"
    by (cases "sequence (map f xs)") (simp_all add: f_def)
  also have "\<dots> \<longleftrightarrow> list_ex isl (map f xs)"
    by (rule sequence_isl)
  also have "\<dots> \<longleftrightarrow> (\<exists>x\<in>set xs. isl (f x))"
    by (simp add: list_ex_iff)
  also have "\<dots> \<longleftrightarrow> (\<exists>x\<in>set xs. unprintable x)"
    using elem by blast
  finally show ?case
    by (simp add: list_ex_iff)
qed simp_all

lemma or_default_isl: "isl (toString (or_default t d)) \<longleftrightarrow> unprintable_field t"
proof (cases t)
  case None
  then show ?thesis by simp
next
  case (Some v)
  show ?thesis
  proof (cases "truthy (Some v)")
    case True
    then have "v \<noteq> JNull"
      by auto
    with True Some show ?thesis
      by (simp add: toString_isl)
  next
    case False
    then have "\<not> unprintable v"
      by (cases v) simp_all
    with False Some show ?thesis
      by simp
  qed
qed

lemma coerce_isl: "isl (coerce i) \<longleftrightarrow> rejected_element i"
proof (cases i)
  case (JObj kvs)
  have "isl (coerce (JObj kvs)) \<longleftrightarrow>
      isl (toString (or_default (map_of kvs (js ''text'')) [])) \<or>
      isl (toString (or_default (map_of kvs (js ''author'')) unknown_author))"
    by (simp add: coerce_def split: sum.splits)
  then show ?thesis
    by (simp add: JObj or_default_isl)
qed (simp_all add: coerce_def)

lemma parse_json_isl: "isl (parse_json h content) \<longleftrightarrow> rejected_json (JSON_parse h content)"
proof (cases "JSON_parse h content" rule: rejected_json.cases)
  case (1 data)
  have "list_ex isl (map coerce data) \<longleftrightarrow> list_ex rejected_element data"
    by (simp add: list_ex_iff coerce_isl)
  then have "isl (sequence (map coerce data)) \<longleftrightarrow> list_ex rejected_element data"
    by (simp only: sequence_isl)
  with 1 show ?thesis
    by (cases "sequence (map coerce data)") (simp_all add: parse_json_def)
qed (simp_all add: parse_json_def split: json.splits)

lemma truthy_falsy: "truthy (Some v) \<longleftrightarrow> \<not> falsy v"
  by (cases v) simp_all

lemma or_default_string_form:
  assumes "\<not> unprintable_field t"
  shows "toString (or_default t d) =
           Inr (case t of None \<Rightarrow> d | Some v \<Rightarrow> if falsy v then d else string_form v)"
proof (cases t)
  case None
  then show ?thesis by simp
next
  case (Some v)
  show ?thesis
  proof (cases "falsy v")
    case True
    with Some show ?thesis
      by (simp add: truthy_falsy)
  next
    case False
    then have "v \<noteq> JNull"
      by auto
    with assms Some have "\<not> isl (toString v)"
      by (simp add: toString_isl)
    then obtain s where "toString v = Inr s"
      by (cases "toString v") simp_all
    with False Some show ?thesis
      by (simp add: truthy_falsy string_form_def)
  qed
qed

lemma coerce_candidate:
  assumes "\<not> rejected_element i"
  shows "coerce i = Inr (candidate i)"
proof (cases i)
  case JNull
  with assms show ?thesis by simp
next
  case (JObj kvs)
  with assms have t: "\<not> unprintable_field (map_of kvs (js ''text''))"
    and a: "\<not> unprintable_field (map_of kvs (js ''author''))"
    by simp_all
  show ?thesis
    by (simp add: JObj coerce_def candidate_def field_string_def
        or_default_string_form [OF t] or_default_string_form [OF a])
qed (simp_all add: coerce_def candidate_def field_string_def trim_unknown_author)

lemma filter_map_candidate:
  "filter (\<lambda>p. qtext p \<noteq> []) (map candidate data) =
     map candidate (filter (\<lambda>i. trim (field_string (js ''text'') [] i) \<noteq> []) data)"
  by (induction data) (simp_all add: candidate_def)

lemma handleFileChange_json_any:
  assumes "endsWith (toLowerCase h fname) (js ''.json'')"
    and "JSON_parse h content = Some (JArr data)"
    and "\<not> list_ex rejected_element data"
  shows "handleFileChange h (Some (fname, content)) st =
           st\<lparr>importError := None,
              previewList := map candidate
                (filter (\<lambda>i. trim (field_string (js ''text'') [] i) \<noteq> []) data)\<rparr>"
proof -
  have "coerce i = Inr (candidate i)" if "i \<in> set data" for i
    using assms(3) that by (simp add: list_ex_iff coerce_candidate)
  then have "sequence (map coerce data) = Inr (map candidate data)"
    by (rule sequence_map_Inr)
  then have "parse_json h content =
      Inr (map candidate (filter (\<lambda>i. trim (field_string (js ''text'') [] i) \<noteq> []) data))"
    using assms(2) by (simp add: parse_json_def filter_map_candidate)
  with assms(1) show ?thesis
    by (simp add: handleFileChange_def onload_def)
qed

section \<open>Facts about the CSV branch\<close>

lemma cell_or_column: "cell_or row k [] = column row k"
  by (simp add: cell_or_def cell_def column_def or_else_def)

lemma cell_or_author:
  "trim (cell_or row k unknown_author) =
     (if column row k = [] then unknown_author else trim (column row k))"
  by (simp add: cell_or_def cell_def column_def or_else_def trim_unknown_author)

lemma csv_row_spec: "csv_row row = spec_csv_candidate row"
  by (simp add: csv_row_def spec_csv_candidate_def cell_or_column cell_or_author)

lemma parse_csv_spec:
  "parse_csv h content =
     map spec_csv_candidate (filter (\<lambda>row. trim (column row 0) \<noteq> []) (Papa_parse h content))"
proof -
  have "filter (\<lambda>r. qtext r \<noteq> []) (map spec_csv_candidate rows) =
      map spec_csv_candidate (filter (\<lambda>row. trim (column row 0) \<noteq> []) rows)" for rows
    by (induction rows) (simp_all add: spec_csv_candidate_def)
  then show ?thesis
    by (simp add: parse_csv_def csv_row_spec [abs_def])
qed

lemma scenario_csv_rows:
  "csv_rows scenario_csv = [[js ''hello'', js ''world''], [[], js ''skip''], [js ''foo'', []]]"
  by (simp add: csv_rows_def scenario_csv_def js_def)

lemma handleFileChange_csv:
  assumes "endsWith (toLowerCase h fname) (js ''.csv'')"
  shows "handleFileChange h (Some (fname, content)) st =
           st\<lparr>importError := None,
              previewList := map spec_csv_candidate
                (filter (\<lambda>row. trim (column row 0) \<noteq> []) (Papa_parse h content))\<rparr>"
  using assms csv_not_json [OF assms]
  by (simp add: handleFileChange_def onload_def parse_csv_spec)

lemma scenario_csv_import:
  "handleFileChange example_host (Some (js ''quotes.csv'', scenario_csv)) st =
     st\<lparr>importError := None,
        previewList := [\<lparr>qtext = js ''hello'', author = js ''world''\<rparr>,
                        \<lparr>qtext = js ''foo'', author = unknown_author\<rparr>]\<rparr>"
proof -
  have name: "endsWith (toLowerCase example_host (js ''quotes.csv'')) (js ''.csv'')"
    by (simp add: example_host_def ascii_lower_def endsWith_def js_def)
  have rows: "Papa_parse example_host scenario_csv =
      [[js ''hello'', js ''world''], [[], js ''skip''], [js ''foo'', []]]"
    by (simp add: example_host_def scenario_csv_rows)
  show ?thesis
    unfolding handleFileChange_csv [OF name] rows
    by (simp add: spec_csv_candidate_def column_def trim_def is_white_def js_def)
qed

lemma parse_csv_trimmed:
  assumes "p \<in> set (parse_csv h content)"
  shows "qtext p \<noteq> [] \<and> trim (qtext p) = qtext p"
  using assms by (auto simp: parse_csv_def csv_row_def trim_trim)

section \<open>Facts about the handlers\<close>

lemma onload_trimmed:
  assumes "p \<in> set (previewList (onload h name content st))"
  shows "qtext p \<noteq> [] \<and> trim (qtext p) = qtext p"
proof (cases "endsWith name (js ''.json'')")
  case True
  show ?thesis
  proof (cases "parse_json h content")
    case (Inl e)
    with True assms show ?thesis
      by (simp add: onload_def)
  next
    case (Inr list)
    with True assms have "p \<in> set list"
      by (simp add: onload_def)
    with Inr show ?thesis
      by (rule parse_json_trimmed)
  qed
next
  case False
  with assms have "endsWith name (js ''.csv'') \<and> p \<in> set (parse_csv h content)"
    by (simp add: onload_def split: if_splits)
  then have "p \<in> set (parse_csv h content)"
    by simp
  then show ?thesis
    by (rule parse_csv_trimmed)
qed


lemma local_commit_quotes:
  "quotes (confirmImport None st) = previewList st @ quotes st"
  by (simp add: confirmImport_def local_commit_def alert_def)

lemma phase_Previewing: "workflow_phase st = Previewing \<longleftrightarrow> previewList st \<noteq> [] \<and> \<not> loading st"
  by (auto simp: workflow_phase_def split: if_splits)


section \<open>The import parser\<close>

text \<open>
  Claim C1, as the code has it. When the file name ends in \<^verbatim>\<open>.json\<close> (in any letter
  case) and the content parses to an array with no \<^verbatim>\<open>null\<close> element and no
  \<^verbatim>\<open>text\<close> or \<^verbatim>\<open>author\<close> value without a string form, the preview holds exactly the
  elements whose trimmed text is not empty, in the order of the array. The text of a
  candidate is the field converted to a string and trimmed, a missing or falsy field
  counting as the empty string; the author is the field converted to a string and
  trimmed, the label for an unknown author standing in for a missing or falsy field.
  No error is set. When the fields are strings wherever they are present, this is the
  candidate the specification promises: the author is defaulted exactly when the field
  is missing or empty.
\<close>

theorem json_import:
  assumes "endsWith (toLowerCase h fname) (js ''.json'')"
    and "JSON_parse h content = Some (JArr data)"
  shows "(\<not> list_ex rejected_element data \<longrightarrow>
          handleFileChange h (Some (fname, content)) st =
            st\<lparr>importError := None,
               previewList := map candidate
                 (filter (\<lambda>i. trim (field_string (js ''text'') [] i) \<noteq> []) data)\<rparr>)
    \<and> (list_all import_element data \<longrightarrow>
          handleFileChange h (Some (fname, content)) st =
            st\<lparr>importError := None,
               previewList := map spec_candidate (filter (\<lambda>i. spec_text i \<noteq> []) data)\<rparr>)"
proof (intro conjI impI)
  assume "\<not> list_ex rejected_element data"
  with assms show "handleFileChange h (Some (fname, content)) st =
            st\<lparr>importError := None,
               previewList := map candidate
                 (filter (\<lambda>i. trim (field_string (js ''text'') [] i) \<noteq> []) data)\<rparr>"
    by (rule handleFileChange_json_any)
next
  assume "list_all import_element data"
  with assms show "handleFileChange h (Some (fname, content)) st =
            st\<lparr>importError := None,
               previewList := map spec_candidate (filter (\<lambda>i. spec_text i \<noteq> []) data)\<rparr>"
    by (rule handleFileChange_json)
qed

theorem json_import_witness:
  "endsWith (toLowerCase example_host (js ''Quotes.JSON'')) (js ''.json'')
   \<and> JSON_parse example_host scenario_json =
       Some (JArr [JObj [(js ''text'', JStr (js ''a''))],
                   JObj [(js ''text'', JStr []), (js ''author'', JStr (js ''x''))],
                   JObj [(js ''author'', JStr (js ''y''))]])
   \<and> \<not> list_ex rejected_element
        [JObj [(js ''text'', JStr (js ''a''))],
         JObj [(js ''text'', JStr []), (js ''author'', JStr (js ''x''))],
         JObj [(js ''author'', JStr (js ''y''))]]
   \<and> list_all import_element
        [JObj [(js ''text'', JStr (js ''a''))],
         JObj [(js ''text'', JStr []), (js ''author'', JStr (js ''x''))],
         JObj [(js ''author'', JStr (js ''y''))]]
   \<and> handleFileChange example_host (Some (js ''Quotes.JSON'', scenario_json)) initial =
       initial\<lparr>previewList := [\<lparr>qtext = js ''a'', author = unknown_author\<rparr>]\<rparr>
   \<and> map candidate (filter (\<lambda>i. trim (field_string (js ''text'') [] i) \<noteq> [])
        [JObj [(js ''text'', JStr (js ''a''))],
         JObj [(js ''text'', JStr []), (js ''author'', JStr (js ''x''))],
         JObj [(js ''author'', JStr (js ''y''))]]) =
       [\<lparr>qtext = js ''a'', author = unknown_author\<rparr>]"
proof -
  define data where "data =
        [JObj [(js ''text'', JStr (js ''a''))],
         JObj [(js ''text'', JStr []), (js ''author'', JStr (js ''x''))],
         JObj [(js ''author'', JStr (js ''y''))]]"
  have name: "endsWith (toLowerCase example_host (js ''Quotes.JSON'')) (js ''.json'')"
    by (simp add: example_host_def ascii_lower_def endsWith_def js_def)
  have doc: "JSON_parse example_host scenario_json = Some (JArr data)"
    by (simp add: example_host_def example_JSON_parse_def data_def)
  have accepted: "\<not> list_ex rejected_element data"
    by (simp add: data_def js_def)
  have elems: "list_all import_element data"
    by (simp add: data_def js_def)
  have strings: "map spec_candidate (filter (\<lambda>i. spec_text i \<noteq> []) data) =
      [\<lparr>qtext = js ''a'', author = unknown_author\<rparr>]"
    by (simp add: data_def spec_candidate_def spec_text_def spec_author_def js_def
        trim_def is_white_def)
  have "handleFileChange example_host (Some (js ''Quotes.JSON'', scenario_json)) initial =
      initial\<lparr>importError := None,
        previewList := map spec_candidate (filter (\<lambda>i. spec_text i \<noteq> []) data)\<rparr>"
    using json_import [OF name doc, of initial] elems by blast
  then have result: "handleFileChange example_host (Some (js ''Quotes.JSON'', scenario_json)) initial =
      initial\<lparr>previewList := [\<lparr>qtext = js ''a'', author = unknown_author\<rparr>]\<rparr>"
    by (simp add: strings initial_def)
  have "handleFileChange example_host (Some (js ''Quotes.JSON'', scenario_json)) initial =
      initial\<lparr>importError := None,
        previewList := map candidate
          (filter (\<lambda>i. trim (field_string (js ''text'') [] i) \<noteq> []) data)\<rparr>"
    using json_import [OF name doc, of initial] accepted by blast
  with result have "previewList (initial\<lparr>importError := None,
        previewList := map candidate
          (filter (\<lambda>i. trim (field_string (js ''text'') [] i) \<noteq> []) data)\<rparr>) =
      previewList (initial\<lparr>previewList := [\<lparr>qtext = js ''a'', author = unknown_author\<rparr>]\<rparr>)"
    by (simp only:)
  then have any: "map candidate
          (filter (\<lambda>i. trim (field_string (js ''text'') [] i) \<noteq> []) data) =
      [\<lparr>qtext = js ''a'', author = unknown_author\<rparr>]"
    by simp
  from name doc accepted elems result any show ?thesis
    unfolding data_def by (intro conjI)
qed

text \<open>
  Claim C1 as the specification words it converts every text to a string and keeps the
  element when the trimmed string is not empty. The file \<^verbatim>\<open>zero.json\<close> with content
  \<^verbatim>\<open>[{"text":0}]\<close> parses to an array of one object whose text is the number 0. Its
  string form \<open>0\<close> is not empty after trimming, and yet the preview is empty: the
  falsy number is replaced by the empty string before it is converted.
\<close>

theorem json_import_counterexample:
  "endsWith (toLowerCase example_host (js ''zero.json'')) (js ''.json'')
   \<and> JSON_parse example_host zero_text_json = Some (JArr [JObj [(js ''text'', JNum (js ''0''))]])
   \<and> trim (string_form (JNum (js ''0''))) = js ''0''
   \<and> handleFileChange example_host (Some (js ''zero.json'', zero_text_json)) initial = initial"
  by (simp add: handleFileChange_def onload_def parse_json_def coerce_def string_form_def
      example_host_def example_JSON_parse_def ascii_lower_def endsWith_def
      scenario_json_def zero_text_json_def js_def initial_def trim_def is_white_def)

text \<open>
  Claim C2. When the file name ends in \<^verbatim>\<open>.csv\<close> (in any letter case), every row
  read from the file gives its first two columns as text and author, trimmed, the
  author being the label for an unknown author when the second column is missing or
  empty; rows whose first column is empty after trimming are left out; the order of
  the rows is kept, so there are at most as many candidates as rows. The three-line
  file of the specification's scenario gives the two candidates the specification
  names.
\<close>

theorem csv_import:
  assumes "endsWith (toLowerCase h fname) (js ''.csv'')"
  shows "handleFileChange h (Some (fname, content)) st =
           st\<lparr>importError := None,
              previewList := map spec_csv_candidate
                (filter (\<lambda>row. trim (column row 0) \<noteq> []) (Papa_parse h content))\<rparr>
    \<and> length (previewList (handleFileChange h (Some (fname, content)) st))
        \<le> length (Papa_parse h content)
    \<and> handleFileChange example_host (Some (js ''quotes.csv'', scenario_csv)) st =
           st\<lparr>importError := None,
              previewList := [\<lparr>qtext = js ''hello'', author = js ''world''\<rparr>,
                              \<lparr>qtext = js ''foo'', author = unknown_author\<rparr>]\<rparr>"
proof -
  have "length (previewList (handleFileChange h (Some (fname, content)) st))
        \<le> length (Papa_parse h content)"
    unfolding handleFileChange_csv [OF assms] by simp
  then show ?thesis
    using handleFileChange_csv [OF assms] scenario_csv_import by simp
qed

theorem csv_import_witness:
  "endsWith (toLowerCase example_host (js ''Two.CSV'')) (js ''.csv'')
   \<and> Papa_parse example_host (js '' a ,b'' @ [0x0A] @ js '' ,c'' @ [0x0A] @ js ''d'') =
       [[js '' a '', js ''b''], [js '' '', js ''c''], [js ''d'']]
   \<and> previewList (handleFileChange example_host
         (Some (js ''Two.CSV'', js '' a ,b'' @ [0x0A] @ js '' ,c'' @ [0x0A] @ js ''d'')) initial) =
       [\<lparr>qtext = js ''a'', author = js ''b''\<rparr>, \<lparr>qtext = js ''d'', author = unknown_author\<rparr>]"
proof -
  have name: "endsWith (toLowerCase example_host (js ''Two.CSV'')) (js ''.csv'')"
    by (simp add: example_host_def ascii_lower_def endsWith_def js_def)
  have rows: "Papa_parse example_host (js '' a ,b'' @ [0x0A] @ js '' ,c'' @ [0x0A] @ js ''d'') =
       [[js '' a '', js ''b''], [js '' '', js ''c''], [js ''d'']]"
    by (simp add: example_host_def csv_rows_def js_def)
  show ?thesis
    using name rows
      csv_import [OF name, of "js '' a ,b'' @ [0x0A] @ js '' ,c'' @ [0x0A] @ js ''d''" initial]
    by (simp add: spec_csv_candidate_def column_def trim_def is_white_def js_def)
qed

text \<open>
  Claim C3, as the code has it. The import never fails: it ends with a preview list
  and possibly an error. An error is set, and the preview is then empty, exactly when
  the lower-cased name ends in neither \<^verbatim>\<open>.json\<close> nor \<^verbatim>\<open>.csv\<close> (unsupported type),
  or the name ends in \<^verbatim>\<open>.json\<close> and the JSON branch throws (invalid JSON): the
  content does not parse, or parses to something that is no array, or the array has an
  element that is \<^verbatim>\<open>null\<close> or whose \<^verbatim>\<open>text\<close> or \<^verbatim>\<open>author\<close> has no string form.
\<close>

theorem import_rejection:
  "importError (handleFileChange h (Some (fname, content)) st) =
     (if unsupported (toLowerCase h fname) then Some UnsupportedType
      else if endsWith (toLowerCase h fname) (js ''.json'')
              \<and> rejected_json (JSON_parse h content)
        then Some InvalidJson
      else None)
   \<and> (importError (handleFileChange h (Some (fname, content)) st) \<noteq> None
        \<longleftrightarrow> rejects h fname content)
   \<and> (rejects h fname content \<longrightarrow>
        previewList (handleFileChange h (Some (fname, content)) st) = [])"
proof (cases "parse_json h content")
  case (Inl e)
  then have "rejected_json (JSON_parse h content)"
    using parse_json_isl [of h content] by simp
  with Inl show ?thesis
    by (simp add: handleFileChange_def onload_def rejects_def unsupported_def)
next
  case (Inr list)
  then have "\<not> rejected_json (JSON_parse h content)"
    using parse_json_isl [of h content] by simp
  with Inr show ?thesis
    by (simp add: handleFileChange_def onload_def rejects_def unsupported_def)
qed

theorem import_rejection_witness:
  "rejects example_host (js ''a.json'') (js ''[null]'')
   \<and> importError (handleFileChange example_host (Some (js ''a.json'', js ''[null]'')) initial)
       = Some InvalidJson
   \<and> previewList (handleFileChange example_host (Some (js ''a.json'', js ''[null]'')) initial) = []"
proof -
  have name: "endsWith (toLowerCase example_host (js ''a.json'')) (js ''.json'')"
    by (simp add: example_host_def ascii_lower_def endsWith_def js_def)
  have doc: "rejected_json (JSON_parse example_host (js ''[null]''))"
    by (simp add: example_host_def example_JSON_parse_def scenario_json_def
        zero_text_json_def js_def)
  from name doc have "rejects example_host (js ''a.json'') (js ''[null]'')"
    by (simp add: rejects_def)
  with name doc show ?thesis
    using import_rejection [of example_host "js ''a.json''" "js ''[null]''" initial]
    by (simp add: unsupported_def)
qed

text \<open>
  Claim C3 as the specification words it names only two causes for an error. The file
  \<^verbatim>\<open>a.json\<close> with content \<^verbatim>\<open>[null]\<close> has a supported extension and parses to an
  array, and yet the import ends with the error for invalid JSON and an empty preview:
  reading \<^verbatim>\<open>text\<close> from the \<^verbatim>\<open>null\<close> element throws inside the \<^verbatim>\<open>try\<close> block.
\<close>

theorem import_rejection_counterexample:
  "\<not> spec_rejects example_host (js ''a.json'') (js ''[null]'')
   \<and> importError (handleFileChange example_host (Some (js ''a.json'', js ''[null]'')) initial)
       = Some InvalidJson
   \<and> previewList (handleFileChange example_host (Some (js ''a.json'', js ''[null]'')) initial) = []"
  by (simp add: spec_rejects_def unsupported_def handleFileChange_def onload_def parse_json_def
      coerce_def example_host_def example_JSON_parse_def ascii_lower_def endsWith_def
      scenario_json_def zero_text_json_def js_def initial_def)

section \<open>The preview and its commit\<close>

text \<open>
  Claim C4. When the commit runs from the previewing state with a remote store whose
  insert throws or answers with an error, the state afterwards is previewing again with
  the same preview batch, the quote collection is unchanged, and one alert reports the
  failure.
\<close>

theorem failed_commit_keeps_preview:
  assumes "workflow_phase st = Previewing"
    and "insert_quotes c (payload_of (previewList st)) = Rejected
       \<or> insert_quotes c (payload_of (previewList st)) = Fulfilled True"
  shows "previewList (confirmImport (Some c) st) = previewList st
    \<and> quotes (confirmImport (Some c) st) = quotes st
    \<and> workflow_phase (confirmImport (Some c) st) = Previewing
    \<and> alerts (confirmImport (Some c) st) =
        alerts st @ [if insert_quotes c (payload_of (previewList st)) = Rejected
                     then ConnectionFailed else SaveFailed]"
proof -
  from assms(1) have "previewList st \<noteq> []" and "\<not> loading st"
    by (simp_all add: phase_Previewing)
  with assms(2) show ?thesis
    by (auto simp: confirmImport_def remote_commit_def alert_def workflow_phase_def Let_def)
qed

theorem failed_commit_keeps_preview_witness:
  "workflow_phase pending = Previewing
   \<and> insert_quotes error_client (payload_of (previewList pending)) = Fulfilled True
   \<and> previewList (confirmImport (Some error_client) pending) = previewList pending
   \<and> quotes (confirmImport (Some error_client) pending) = quotes pending
   \<and> alerts (confirmImport (Some error_client) pending) = [SaveFailed]"
  using failed_commit_keeps_preview [of pending error_client]
  by (simp add: pending_def initial_def workflow_phase_def error_client_def)

text \<open>
  Claim C5. When the commit runs from the previewing state without a remote store, the
  workflow ends empty, and the collection is the batch, in its order, followed by the
  earlier collection: every candidate was added exactly once.
\<close>

theorem local_commit_prepends:
  assumes "workflow_phase st = Previewing"
  shows "quotes (confirmImport None st) = previewList st @ quotes st
    \<and> mset (quotes (confirmImport None st)) = mset (previewList st) + mset (quotes st)
    \<and> previewList (confirmImport None st) = []
    \<and> workflow_phase (confirmImport None st) = Empty
    \<and> alerts (confirmImport None st) = alerts st @ [AddedLocally (length (previewList st))]"
proof -
  from assms have "previewList st \<noteq> []" and "\<not> loading st"
    by (simp_all add: phase_Previewing)
  then show ?thesis
    by (simp add: confirmImport_def local_commit_def alert_def workflow_phase_def)
qed

theorem local_commit_prepends_witness:
  "workflow_phase pending = Previewing
   \<and> quotes (confirmImport None pending)
     = [\<lparr>qtext = js ''p'', author = js ''x''\<rparr>, \<lparr>qtext = js ''q'', author = js ''y''\<rparr>,
        \<lparr>qtext = js ''old'', author = js ''o''\<rparr>]
   \<and> previewList (confirmImport None pending) = []
   \<and> workflow_phase (confirmImport None pending) = Empty"
  using local_commit_prepends [of pending]
  by (simp add: pending_def initial_def workflow_phase_def)




text \<open>
  Claim C8. Whatever file is read, every candidate in the preview afterwards has a text
  that is not empty and is already trimmed, on the JSON path and on the CSV path
  alike. A local commit adds exactly this preview in front of the collection, so the
  records it adds have no empty text.
\<close>

theorem preview_text_nonempty:
  "list_all (\<lambda>p. qtext p \<noteq> [] \<and> trim (qtext p) = qtext p)
     (previewList (handleFileChange h (Some (fname, content)) st))
   \<and> quotes (confirmImport None (handleFileChange h (Some (fname, content)) st)) =
       previewList (handleFileChange h (Some (fname, content)) st) @ quotes st"
proof -
  have "list_all (\<lambda>p. qtext p \<noteq> [] \<and> trim (qtext p) = qtext p)
     (previewList (handleFileChange h (Some (fname, content)) st))"
    unfolding list_all_iff
    by (auto simp: handleFileChange_def dest: onload_trimmed)
  moreover have "quotes (handleFileChange h (Some (fname, content)) st) = quotes st"
    by (simp add: handleFileChange_def onload_def split: sum.splits)
  ultimately show ?thesis
    by (simp add: local_commit_quotes)
qed

theorem preview_text_nonempty_witness:
  "previewList (handleFileChange example_host (Some (js ''quotes.csv'', scenario_csv)) initial) =
     [\<lparr>qtext = js ''hello'', author = js ''world''\<rparr>, \<lparr>qtext = js ''foo'', author = unknown_author\<rparr>]
   \<and> quotes (confirmImport None
        (handleFileChange example_host (Some (js ''quotes.csv'', scenario_csv)) initial)) =
     [\<lparr>qtext = js ''hello'', author = js ''world''\<rparr>, \<lparr>qtext = js ''foo'', author = unknown_author\<rparr>]"
  using preview_text_nonempty [of example_host "js ''quotes.csv''" scenario_csv initial]
  by (simp add: scenario_csv_import local_commit_quotes initial_def)

section \<open>Claims about search\<close>

text \<open>
  Claim C6, as the code has it. The search is a function of the collection and the
  query alone. A quote is kept when the trimmed query occurs, code unit for code unit
  (so case matters and nothing is normalised), in the quote's text, one space, and the
  quote's author, in this order. The result is a subsequence of the collection in the
  collection's order, a query that is empty after trimming keeps every quote, and
  searching the result again with the same query changes nothing.
\<close>

theorem filter_space_separated:
  "filtered st =
     filter (\<lambda>q. sublist (trim (query st)) (qtext q @ js '' '' @ author q)) (quotes st)
   \<and> subseq (filtered st) (quotes st)
   \<and> (trim (query st) = [] \<longrightarrow> filtered st = quotes st)
   \<and> filtered (st\<lparr>quotes := filtered st\<rparr>) = filtered st"
proof -
  have "matches (query st) =
     (\<lambda>q. sublist (trim (query st)) (qtext q @ js '' '' @ author q))"
    by (simp add: fun_eq_iff matches_sublist)
  then have "filtered st =
     filter (\<lambda>q. sublist (trim (query st)) (qtext q @ js '' '' @ author q)) (quotes st)"
    by (simp add: filtered_def)
  moreover have "subseq (filtered st) (quotes st)"
    by (simp add: filtered_def)
  moreover have "trim (query st) = [] \<longrightarrow> filtered st = quotes st"
    by (simp add: filtered_def matches_blank)
  moreover have "filtered (st\<lparr>quotes := filtered st\<rparr>) = filtered st"
    by (simp add: filtered_def)
  ultimately show ?thesis
    by blast
qed

theorem filter_space_separated_witness:
  "trim (query (initial\<lparr>quotes := [\<lparr>qtext = js ''a'', author = js ''b''\<rparr>], query := js '' ''\<rparr>)) = []
   \<and> filtered (initial\<lparr>quotes := [\<lparr>qtext = js ''a'', author = js ''b''\<rparr>], query := js '' ''\<rparr>)
       = [\<lparr>qtext = js ''a'', author = js ''b''\<rparr>]"
  using filter_space_separated
    [of "initial\<lparr>quotes := [\<lparr>qtext = js ''a'', author = js ''b''\<rparr>], query := js '' ''\<rparr>"]
  by (simp add: initial_def trim_def is_white_def js_def)

text \<open>
  Claim C6 as the specification words it tests the query against the text directly
  followed by the author. For the quote with text \<open>a\<close> and author \<open>b\<close> the query \<open>ab\<close>
  occurs in that concatenation, and the search does not return the quote: the space
  between the two parts is part of what is searched.
\<close>

theorem filter_concatenation_counterexample:
  "sublist (js ''ab'') (qtext \<lparr>qtext = js ''a'', author = js ''b''\<rparr> @ author \<lparr>qtext = js ''a'', author = js ''b''\<rparr>)
   \<and> filtered (initial\<lparr>quotes := [\<lparr>qtext = js ''a'', author = js ''b''\<rparr>], query := js ''ab''\<rparr>) = []"
  by (simp add: filtered_def matches_def haystack_def or_else_def initial_def trim_def
      is_white_def js_def)

text \<open>
  Claim C9. The query is trimmed before it is matched: searching with the trimmed query
  gives the same result, a query of white space alone keeps every quote, and white
  space added before and after a query does not change the result.
\<close>

theorem query_trimmed:
  "filtered (st\<lparr>query := trim (query st)\<rparr>) = filtered st
   \<and> ((\<forall>c\<in>set (query st). is_white c) \<longrightarrow> filtered st = quotes st)
   \<and> ((\<forall>c\<in>set pre. is_white c) \<and> (\<forall>c\<in>set post. is_white c) \<longrightarrow>
        filtered (st\<lparr>query := pre @ query st @ post\<rparr>) = filtered st)"
proof -
  have "filtered (st\<lparr>query := trim (query st)\<rparr>) = filtered st"
    by (simp add: filtered_def matches_trim)
  moreover have "(\<forall>c\<in>set (query st). is_white c) \<longrightarrow> filtered st = quotes st"
    by (simp add: filtered_def matches_blank trim_white)
  moreover have "(\<forall>c\<in>set pre. is_white c) \<and> (\<forall>c\<in>set post. is_white c) \<longrightarrow>
        filtered (st\<lparr>query := pre @ query st @ post\<rparr>) = filtered st"
  proof
    assume "(\<forall>c\<in>set pre. is_white c) \<and> (\<forall>c\<in>set post. is_white c)"
    then have "trim (pre @ query st @ post) = trim (query st)"
      by (simp add: trim_padding)
    then have "matches (pre @ query st @ post) = matches (query st)"
      by (simp add: matches_def fun_eq_iff)
    then show "filtered (st\<lparr>query := pre @ query st @ post\<rparr>) = filtered st"
      by (simp add: filtered_def)
  qed
  ultimately show ?thesis
    by blast
qed

theorem query_trimmed_witness:
  "filtered (initial\<lparr>quotes := [\<lparr>qtext = js ''a'', author = js ''b''\<rparr>, \<lparr>qtext = js ''c'', author = []\<rparr>],
                     query := js '' b ''\<rparr>)
     = [\<lparr>qtext = js ''a'', author = js ''b''\<rparr>]
   \<and> filtered (initial\<lparr>quotes := [\<lparr>qtext = js ''a'', author = js ''b''\<rparr>, \<lparr>qtext = js ''c'', author = []\<rparr>],
                     query := js ''b''\<rparr>)
     = [\<lparr>qtext = js ''a'', author = js ''b''\<rparr>]"
  using query_trimmed
    [of "initial\<lparr>quotes := [\<lparr>qtext = js ''a'', author = js ''b''\<rparr>, \<lparr>qtext = js ''c'', author = []\<rparr>],
                  query := js ''b''\<rparr>" "js '' ''" "js '' ''"]
  by (simp add: filtered_def matches_def haystack_def or_else_def initial_def trim_def
      is_white_def js_def)

section \<open>Manual add\<close>

text \<open>
  Claim C10. A manual add without a text, or with a text that is empty or white space
  only, changes nothing and shows nothing, with or without a remote store. For any
  other text the record that is added has the trimmed text and the trimmed author, the
  author being the label for an unknown author when the argument is absent or empty.
  Without a remote store this record is put in front of the collection. With a remote
  store this record, alone, is what is sent to the insert, and it is put in front of
  the collection when the insert answers without an error; an error reply alerts and a
  rejected insert does nothing, the collection staying as it was.
\<close>

theorem manual_add:
  "addManual supabase None a st = st
   \<and> ((\<forall>c\<in>set t. is_white c) \<longrightarrow> addManual supabase (Some t) a st = st)
   \<and> (\<not> (\<forall>c\<in>set t. is_white c) \<longrightarrow>
        addManual None (Some t) a st =
          st\<lparr>quotes :=
               \<lparr>qtext = trim t,
                author = (case a of None \<Rightarrow> unknown_author
                          | Some s \<Rightarrow> if s = [] then unknown_author else trim s)\<rparr>
               # quotes st\<rparr>)
   \<and> (\<not> (\<forall>c\<in>set t. is_white c) \<longrightarrow>
        addManual (Some client) (Some t) a st =
          (case insert_quotes client
                  [\<lparr>qtext = trim t,
                    author = (case a of None \<Rightarrow> unknown_author
                              | Some s \<Rightarrow> if s = [] then unknown_author else trim s)\<rparr>] of
             Rejected \<Rightarrow> st
           | Fulfilled failed \<Rightarrow>
               if failed then st\<lparr>alerts := alerts st @ [AddFailed]\<rparr>
               else st\<lparr>quotes :=
                      \<lparr>qtext = trim t,
                       author = (case a of None \<Rightarrow> unknown_author
                                 | Some s \<Rightarrow> if s = [] then unknown_author else trim s)\<rparr>
                      # quotes st\<rparr>))"
proof -
  have added: "manual_quote t a =
      \<lparr>qtext = trim t,
       author = (case a of None \<Rightarrow> unknown_author
                 | Some s \<Rightarrow> if s = [] then unknown_author else trim s)\<rparr>"
    by (simp add: manual_quote_def or_else_def trim_unknown_author split: option.splits)
  have word: "trim t \<noteq> []" if "\<not> (\<forall>c\<in>set t. is_white c)"
    using that by (simp only: trim_eq_Nil_iff not_False_eq_True)
  have "addManual supabase None a st = st"
    by (simp add: addManual_def)
  moreover have "(\<forall>c\<in>set t. is_white c) \<longrightarrow> addManual supabase (Some t) a st = st"
    by (simp add: addManual_def trim_white)
  moreover have "\<not> (\<forall>c\<in>set t. is_white c) \<longrightarrow>
        addManual None (Some t) a st = st\<lparr>quotes := manual_quote t a # quotes st\<rparr>"
  proof
    assume "\<not> (\<forall>c\<in>set t. is_white c)"
    then have "trim t \<noteq> []"
      by (rule word)
    then show "addManual None (Some t) a st = st\<lparr>quotes := manual_quote t a # quotes st\<rparr>"
      by (simp add: addManual_def)
  qed
  moreover have "\<not> (\<forall>c\<in>set t. is_white c) \<longrightarrow>
        addManual (Some client) (Some t) a st =
          (case insert_quotes client [manual_quote t a] of
             Rejected \<Rightarrow> st
           | Fulfilled failed \<Rightarrow>
               if failed then st\<lparr>alerts := alerts st @ [AddFailed]\<rparr>
               else st\<lparr>quotes := manual_quote t a # quotes st\<rparr>)"
  proof
    assume "\<not> (\<forall>c\<in>set t. is_white c)"
    then have "trim t \<noteq> []"
      by (rule word)
    then show "addManual (Some client) (Some t) a st =
          (case insert_quotes client [manual_quote t a] of
             Rejected \<Rightarrow> st
           | Fulfilled failed \<Rightarrow>
               if failed then st\<lparr>alerts := alerts st @ [AddFailed]\<rparr>
               else st\<lparr>quotes := manual_quote t a # quotes st\<rparr>)"
      by (simp add: addManual_def alert_def split: awaited.splits)
  qed
  ultimately show ?thesis
    unfolding added by blast
qed

theorem manual_add_witness:
  "addManual None (Some (js ''  '')) (Some []) initial = initial
   \<and> addManual None (Some (js '' hi '')) (Some []) initial
     = initial\<lparr>quotes := [\<lparr>qtext = js ''hi'', author = unknown_author\<rparr>]\<rparr>
   \<and> addManual (Some accepting_client) (Some (js '' hi '')) (Some (js '' me '')) initial
     = initial\<lparr>quotes := [\<lparr>qtext = js ''hi'', author = js ''me''\<rparr>]\<rparr>
   \<and> addManual (Some error_client) (Some (js '' hi '')) (Some (js '' me '')) initial
     = initial\<lparr>alerts := [AddFailed]\<rparr>"
proof -
  have blank: "\<forall>c\<in>set (js ''  ''). is_white c"
    by (simp add: is_white_def js_def)
  have word: "\<not> (\<forall>c\<in>set (js '' hi ''). is_white c)"
    by (simp add: is_white_def js_def)
  have trimmed: "trim (js '' hi '') = js ''hi''" "trim (js '' me '') = js ''me''"
    by (simp_all add: trim_def is_white_def js_def)
  have author: "js '' me '' \<noteq> []"
    by (simp add: js_def)
  have plain: "addManual None (Some (js ''  '')) (Some []) initial = initial
   \<and> addManual None (Some (js '' hi '')) (Some []) initial
     = initial\<lparr>quotes := [\<lparr>qtext = js ''hi'', author = unknown_author\<rparr>]\<rparr>"
    using manual_add [of None "Some []" initial "js ''  ''"]
      manual_add [of None "Some []" initial "js '' hi ''"] blank word trimmed
    by (simp add: initial_def)
  have accepted: "addManual (Some accepting_client) (Some (js '' hi '')) (Some (js '' me '')) initial
     = initial\<lparr>quotes := [\<lparr>qtext = js ''hi'', author = js ''me''\<rparr>]\<rparr>"
    using manual_add [of None "Some (js '' me '')" initial "js '' hi ''" accepting_client]
      word trimmed author
    by (simp add: initial_def accepting_client_def)
  have refused: "addManual (Some error_client) (Some (js '' hi '')) (Some (js '' me '')) initial
     = initial\<lparr>alerts := [AddFailed]\<rparr>"
    using manual_add [of None "Some (js '' me '')" initial "js '' hi ''" error_client]
      word trimmed author
    by (simp add: initial_def error_client_def)
  from plain accepted refused show ?thesis
    by (intro conjI) simp_all
qed

end
